theory Spec2Isabelle
  imports Main "HOL-Library.Sublist"
begin

text \<open>
  A Stremio addon that resolves a catalogue title into stream links of the DigiMovie
  provider, and a proxy that relays files from allowlisted hosts. The development embeds
  the title normalisation and the candidate scoring of the stream handler, the session
  methods and the link extraction of the \<open>Digimovie\<close> class, and the proxy route, then
  proves what holds of them. Network calls are explicit: a provider is a function that
  answers requests, and every request made is appended to a log.
\<close>

section \<open>JavaScript strings\<close>

text \<open>
  A JavaScript string is modelled as a \<^typ>\<open>string\<close> whose characters are the code units
  U+0000 to U+00FF. On this range \<open>toLowerCase\<close> maps A-Z and the accented capitals
  U+00C0 to U+00DE (U+00D7, the multiplication sign, apart) to the letter 32 places
  further, and the regular expression class \<open>\s\<close> and \<open>trim\<close> agree on the white space
  characters: tab, line feed, vertical tab, form feed, carriage return, space and the
  no-break space U+00A0.
\<close>

definition is_ws :: "char \<Rightarrow> bool" where
  "is_ws c = (of_char c \<in> {9, 10, 11, 12, 13, 32, 160 :: nat})"

definition to_lower :: "char \<Rightarrow> char" where
  "to_lower c =
     (let n = (of_char c :: nat)
      in if (65 \<le> n \<and> n \<le> 90) \<or> (192 \<le> n \<and> n \<le> 222 \<and> n \<noteq> 215)
         then char_of (n + 32) else c)"

definition toLowerCase :: "string \<Rightarrow> string" where
  "toLowerCase s = map to_lower s"

text \<open>\<open>s.replace(/[class]/g, rep)\<close>: every character of the class is replaced by \<open>rep\<close>.\<close>

fun replace_chars :: "(char \<Rightarrow> bool) \<Rightarrow> string \<Rightarrow> string \<Rightarrow> string" where
  "replace_chars P rep [] = []"
| "replace_chars P rep (c # cs) =
     (if P c then rep @ replace_chars P rep cs else c # replace_chars P rep cs)"

text \<open>
  \<open>s.replace(/^w\s+/i, "")\<close> for a lower-case ASCII word \<open>w\<close>: when the string starts with
  \<open>w\<close> in either case, followed by at least one white space character, the word and the
  whole run of white space after it are removed; otherwise the string is unchanged.
\<close>

definition ci_eq :: "char \<Rightarrow> char \<Rightarrow> bool" where
  "ci_eq c l = (c = l \<or> (of_char c :: nat) + 32 = of_char l)"

definition strip_leading :: "string \<Rightarrow> string \<Rightarrow> string" where
  "strip_leading w s =
     (let rest = drop (length w) s
      in if length w \<le> length s \<and> list_all2 ci_eq (take (length w) s) w
            \<and> rest \<noteq> [] \<and> is_ws (hd rest)
         then dropWhile is_ws rest else s)"

text \<open>\<open>s.replace(/\s+/g, " ")\<close>: every maximal run of white space becomes one space.\<close>

function replace_ws_runs :: "string \<Rightarrow> string" where
  "replace_ws_runs [] = []"
| "replace_ws_runs (c # cs) =
     (if is_ws c then CHR '' '' # replace_ws_runs (dropWhile is_ws cs)
      else c # replace_ws_runs cs)"
  by pat_completeness auto
termination
  by (relation "measure length") (auto simp: length_dropWhile_le less_Suc_eq_le)

text \<open>\<open>s.trim()\<close>: white space is removed from both ends.\<close>

fun trimEnd :: "string \<Rightarrow> string" where
  "trimEnd [] = []"
| "trimEnd (c # cs) = (let r = trimEnd cs in if r = [] \<and> is_ws c then [] else c # r)"

definition trim :: "string \<Rightarrow> string" where
  "trim s = dropWhile is_ws (trimEnd s)"

definition startsWith :: "string \<Rightarrow> string \<Rightarrow> bool" where
  "startsWith s t = (take (length t) s = t)"

definition endsWith :: "string \<Rightarrow> string \<Rightarrow> bool" where
  "endsWith s t = (length t \<le> length s \<and> drop (length s - length t) s = t)"

fun includes_str :: "string \<Rightarrow> string \<Rightarrow> bool" where
  "includes_str [] t = (t = [])"
| "includes_str (c # cs) t = (startsWith (c # cs) t \<or> includes_str cs t)"

section \<open>Title normalisation\<close>

text \<open>
  \<open>normalizeTitle\<close> of the stream handler, on a string argument. The guard
  \<open>if (!str) return ""\<close> answers the empty string for the empty string.
\<close>

definition is_punct :: "char \<Rightarrow> bool" where
  "is_punct c = (c = CHR '':'' \<or> c = CHR ''-'' \<or> c = CHR ''.'')"

definition normalizeTitle :: "string \<Rightarrow> string" where
  "normalizeTitle str =
     (if str = [] then []
      else trim (replace_ws_runs (replace_chars is_punct '' ''
             (strip_leading ''an'' (strip_leading ''a'' (strip_leading ''the''
               (replace_chars (\<lambda>c. c = CHR ''&'') ''and'' (toLowerCase str))))))))"

section \<open>JavaScript values\<close>

text \<open>
  Values that come out of \<open>JSON.parse\<close>, a form or a route parameter, with \<open>undefined\<close>
  for what a missing property reads as. Numbers are the integers (a JSON number with a
  fraction behaves as a non-zero integer does in every operation below, its text apart).
  A JSON object is the list of its members in the order of the text.
\<close>

datatype jsval =
    JUndefined
  | JNull
  | JBool bool
  | JNum int
  | JStr string
  | JArr "jsval list"
  | JObj "(string \<times> jsval) list"

datatype js_error = TypeError

text \<open>\<open>!v\<close> is \<open>\<not> truthy v\<close>.\<close>

fun truthy :: "jsval \<Rightarrow> bool" where
  "truthy JUndefined = False"
| "truthy JNull = False"
| "truthy (JBool b) = b"
| "truthy (JNum n) = (n \<noteq> 0)"
| "truthy (JStr s) = (s \<noteq> [])"
| "truthy (JArr xs) = True"
| "truthy (JObj kvs) = True"

text \<open>
  \<open>v.k\<close> for the property names this program reads, none of which is defined on a
  built-in prototype: reading from \<open>undefined\<close> or \<open>null\<close> throws, an object answers its
  member (the last one, when the text repeats a key), every other value \<open>undefined\<close>.
\<close>

fun get_prop :: "jsval \<Rightarrow> string \<Rightarrow> js_error + jsval" where
  "get_prop JUndefined k = Inl TypeError"
| "get_prop JNull k = Inl TypeError"
| "get_prop (JObj kvs) k = Inr (case map_of (rev kvs) k of None \<Rightarrow> JUndefined | Some v \<Rightarrow> v)"
| "get_prop v k = Inr JUndefined"

text \<open>\<open>v?.k\<close>: \<open>undefined\<close> when \<open>v\<close> is \<open>undefined\<close> or \<open>null\<close>.\<close>

definition opt_prop :: "jsval \<Rightarrow> string \<Rightarrow> jsval" where
  "opt_prop v k = (case get_prop v k of Inl e \<Rightarrow> JUndefined | Inr x \<Rightarrow> x)"

text \<open>The decimal text of a number, as string concatenation and template literals print it.\<close>

definition digit_char :: "nat \<Rightarrow> char" where
  "digit_char d = ''0123456789'' ! (d mod 10)"

fun nat_to_string :: "nat \<Rightarrow> string" where
  "nat_to_string n =
     (if n < 10 then [digit_char n] else nat_to_string (n div 10) @ [digit_char (n mod 10)])"

declare nat_to_string.simps [simp del]

definition int_to_string :: "int \<Rightarrow> string" where
  "int_to_string i = (if i < 0 then CHR ''-'' # nat_to_string (nat (- i)) else nat_to_string (nat i))"

fun join_str :: "string \<Rightarrow> string list \<Rightarrow> string" where
  "join_str sep [] = []"
| "join_str sep [x] = x"
| "join_str sep (x # y # ys) = x @ sep @ join_str sep (y # ys)"

text \<open>
  The string a value becomes when it is added to a string: an array joins its elements
  with commas, printing \<open>undefined\<close> and \<open>null\<close> elements as nothing.
\<close>

fun to_string :: "jsval \<Rightarrow> string" where
  "to_string JUndefined = ''undefined''"
| "to_string JNull = ''null''"
| "to_string (JBool b) = (if b then ''true'' else ''false'')"
| "to_string (JNum n) = int_to_string n"
| "to_string (JStr s) = s"
| "to_string (JArr xs) =
     join_str '','' (map (\<lambda>x. if x = JUndefined \<or> x = JNull then [] else to_string x) xs)"
| "to_string (JObj kvs) = ''[object Object]''"

text \<open>
  Converting an object to a string calls its \<open>toString\<close>; an object with a member of
  that name (which, coming from JSON, is not a function) cannot be converted, and neither
  can an array that holds one: the conversion throws.
\<close>

fun printable :: "jsval \<Rightarrow> bool" where
  "printable (JArr xs) = (\<forall>x \<in> set xs. printable x)"
| "printable (JObj kvs) = (''toString'' \<notin> set (map fst kvs))"
| "printable v = True"

definition to_string_js :: "jsval \<Rightarrow> js_error + string" where
  "to_string_js v = (if printable v then Inr (to_string v) else Inl TypeError)"

section \<open>Candidate scoring\<close>

text \<open>
  \<open>normalizeTitle\<close> on any value: a falsy argument gives the empty string, and a truthy
  value that is not a string has no \<open>toLowerCase\<close> method.
\<close>

definition normalizeTitle_val :: "jsval \<Rightarrow> js_error + string" where
  "normalizeTitle_val v =
     (if \<not> truthy v then Inr []
      else case v of JStr s \<Rightarrow> Inr (normalizeTitle s) | _ \<Rightarrow> Inl TypeError)"

text \<open>A search result as \<open>search\<close> builds it; \<open>item_type\<close> is \<open>movie\<close> or \<open>series\<close>.\<close>

record item =
  item_name :: jsval
  item_poster :: jsval
  item_type :: string
  item_id :: jsval

text \<open>
  The body of the \<open>map\<close> callback of the stream handler, for the requested \<open>type\<close> and
  the normalised search title.
\<close>

definition scoreItem :: "string \<Rightarrow> string \<Rightarrow> item \<Rightarrow> js_error + int" where
  "scoreItem type normalizedSearchTitle it =
     (case normalizeTitle_val (item_name it) of
        Inl e \<Rightarrow> Inl e
      | Inr normalizedItemName \<Rightarrow>
          (let score0 = (0 :: int);
               score1 = (if item_type it = type then score0 + 100 else score0 - 50);
               score2 = (if normalizedItemName = normalizedSearchTitle then score1 + 60
                         else if startsWith normalizedItemName normalizedSearchTitle then score1 + 20
                         else if includes_str normalizedItemName normalizedSearchTitle then score1 + 10
                         else score1)
           in Inr score2))"

text \<open>
  The shape of a string after white space runs were collapsed: every white space character
  is a space, and no two of them are adjacent.
\<close>

fun ws_ok :: "string \<Rightarrow> bool" where
  "ws_ok [] = True"
| "ws_ok (c # cs) = ((\<not> is_ws c \<or> (c = CHR '' '' \<and> (cs = [] \<or> \<not> is_ws (hd cs)))) \<and> ws_ok cs)"

section \<open>The normalisation steps and the score components, in the specification's words\<close>

text \<open>Replacing every \<open>&\<close> by the three letters \<open>and\<close>.\<close>

definition ampersand_to_and :: "string \<Rightarrow> string" where
  "ampersand_to_and s = concat (map (\<lambda>c. if c = CHR ''&'' then ''and'' else [c]) s)"

text \<open>
  Stripping one leading article: the string without the article and the white space after
  it, when it starts with the article (in either case) followed by white space.
\<close>

fun after_word :: "string \<Rightarrow> string \<Rightarrow> string option" where
  "after_word [] s = Some s"
| "after_word (l # w) [] = None"
| "after_word (l # w) (c # s) = (if to_lower c = l then after_word w s else None)"

definition strip_article :: "string \<Rightarrow> string \<Rightarrow> string" where
  "strip_article w s =
     (case after_word w s of
        Some (c # r) \<Rightarrow> if is_ws c then dropWhile is_ws r else s
      | _ \<Rightarrow> s)"

definition punctuation_to_space :: "string \<Rightarrow> string" where
  "punctuation_to_space s =
     map (\<lambda>c. if c \<in> {CHR '':'', CHR ''-'', CHR ''.''} then CHR '' '' else c) s"

fun collapse_ws :: "string \<Rightarrow> string" where
  "collapse_ws [] = []"
| "collapse_ws [c] = [if is_ws c then CHR '' '' else c]"
| "collapse_ws (a # b # s) =
     (if is_ws a \<and> is_ws b then collapse_ws (b # s)
      else (if is_ws a then CHR '' '' else a) # collapse_ws (b # s))"

definition trim_both :: "string \<Rightarrow> string" where
  "trim_both s = rev (dropWhile is_ws (rev (dropWhile is_ws s)))"

definition normalize_steps :: "string \<Rightarrow> string" where
  "normalize_steps s =
     trim_both (collapse_ws (punctuation_to_space
       (strip_article ''an'' (strip_article ''a'' (strip_article ''the''
         (ampersand_to_and (map to_lower s)))))))"

definition kind_score :: "string \<Rightarrow> string \<Rightarrow> int" where
  "kind_score candidate_kind target_kind = (if candidate_kind = target_kind then 100 else - 50)"

definition name_score :: "string \<Rightarrow> string \<Rightarrow> int" where
  "name_score candidate_name target =
     (if candidate_name = target then 60
      else if prefix target candidate_name then 20
      else if sublist target candidate_name then 10
      else 0)"

section \<open>The forwarding gateway\<close>

text \<open>
  The proxy route. \<open>ALLOWED_DOMAINS\<close> is the split environment variable. Two library calls
  are parameters of the model: \<open>hostname\<close> is \<open>new URL(u).hostname\<close>, with \<open>None\<close> where
  the constructor throws, and \<open>fetch\<close> is the \<open>axios\<close> request, which either fails or
  answers with the final URL of its redirect chain, the body and the content type.
  The handler's result is the reply together with the list of URLs it has fetched.
\<close>

record upstream =
  responseUrl :: "string option"
  up_data :: string
  up_content_type :: "string option"

datatype fetch_result = FetchError | Fetched upstream

datatype reply_body = Text string | Data string

record reply =
  status :: nat
  body :: reply_body
  content_type :: "string option"

definition MAX_FILE_SIZE :: nat where
  "MAX_FILE_SIZE = 10 * 1024 * 1024"

definition isAllowed :: "string list \<Rightarrow> string \<Rightarrow> bool" where
  "isAllowed ALLOWED_DOMAINS targetDomain =
     list_ex (\<lambda>domain. targetDomain = domain \<or> endsWith targetDomain (''.'' @ domain))
       ALLOWED_DOMAINS"

definition send_text :: "nat \<Rightarrow> string \<Rightarrow> reply" where
  "send_text code msg = \<lparr>status = code, body = Text msg, content_type = None\<rparr>"

definition relay ::
  "string list \<Rightarrow> (string \<Rightarrow> string option) \<Rightarrow> (string \<Rightarrow> fetch_result)
    \<Rightarrow> string option \<Rightarrow> reply \<times> string list" where
  "relay ALLOWED_DOMAINS hostname fetch query_url =
     (case query_url of
        None \<Rightarrow> (send_text 400 ''URL parameter is required'', [])
      | Some targetUrl \<Rightarrow>
          if targetUrl = [] then (send_text 400 ''URL parameter is required'', [])
          else case hostname targetUrl of
            None \<Rightarrow> (send_text 400 ''Invalid URL'', [])
          | Some targetDomain \<Rightarrow>
              if \<not> isAllowed ALLOWED_DOMAINS targetDomain
              then (send_text 403 ''Access to the specified domain is not allowed'', [])
              else case fetch targetUrl of
                FetchError \<Rightarrow> (send_text 500 ''Error fetching the resource'', [targetUrl])
              | Fetched response \<Rightarrow>
                  (let finalUrl = (case responseUrl response of
                                     None \<Rightarrow> targetUrl
                                   | Some u \<Rightarrow> if u = [] then targetUrl else u)
                   in case hostname finalUrl of
                     None \<Rightarrow> (send_text 500 ''Error fetching the resource'', [targetUrl])
                   | Some finalHostname \<Rightarrow>
                       if \<not> isAllowed ALLOWED_DOMAINS finalHostname
                       then (send_text 403 ''Access to the redirected domain is not allowed'',
                             [targetUrl])
                       else if length (up_data response) > MAX_FILE_SIZE
                       then (send_text 413 ''File size exceeds the allowed limit of 10MB'',
                             [targetUrl])
                       else (\<lparr>status = 200, body = Data (up_data response),
                               content_type = up_content_type response\<rparr>, [targetUrl])))"

text \<open>
  The host check in the specification's words: the host is equal to an allowlist entry, or
  is a subdomain of one, that is, ends with a dot followed by the entry.
\<close>

definition host_in_allowlist :: "string list \<Rightarrow> string \<Rightarrow> bool" where
  "host_in_allowlist allowlist host =
     (\<exists>entry \<in> set allowlist. host = entry \<or> (\<exists>sub. host = sub @ ''.'' @ entry))"

section \<open>The provider session\<close>

text \<open>
  The requests the \<open>Digimovie\<close> class sends, each with the values it carries: the probe
  \<open>get_profile\<close> with the token, \<open>login\<close> with the credentials, and \<open>get_movie_detail\<close> with
  the movie id and the token. An \<open>Axios.request\<close> either resolves with \<open>res.data\<close> or
  rejects with an error, whose \<open>response.status\<close> is there when the provider answered.
\<close>

datatype request =
    GetProfile jsval
  | Login jsval jsval
  | GetMovieDetail jsval jsval

datatype http_result = Resolved jsval | Rejected "nat option"

text \<open>The provider answers a request knowing the requests made before it.\<close>

type_synonym provider = "request list \<Rightarrow> request \<Rightarrow> http_result"

text \<open>
  The fields of a \<open>Digimovie\<close> object, and \<open>requests\<close>, the log of the network calls made
  through it so far, oldest first.
\<close>

record digimovie =
  username :: jsval
  password :: jsval
  token :: jsval
  refreshToken :: jsval
  requests :: "request list"

definition axios_request :: "provider \<Rightarrow> request \<Rightarrow> digimovie \<Rightarrow> http_result \<times> digimovie" where
  "axios_request net r this = (net (requests this) r, this\<lparr>requests := requests this @ [r]\<rparr>)"

text \<open>
  The log line of \<open>isLogin\<close> that prints the token is inside the \<open>try\<close> block, whose
  \<open>catch\<close> is empty: when the token cannot be printed, the method goes on to return false.
\<close>

definition isLogin :: "provider \<Rightarrow> digimovie \<Rightarrow> bool \<times> digimovie" where
  "isLogin net this =
     (if \<not> truthy (token this) then (False, this)
      else case axios_request net (GetProfile (token this)) this of
        (Resolved d, this1) \<Rightarrow>
          if truthy (opt_prop d ''status'') \<and> printable (token this1) then (True, this1)
          else (False, this1)
      | (Rejected e, this1) \<Rightarrow> (False, this1))"

text \<open>
  Where \<open>login\<close> reads \<open>res.data.auth_token\<close>, \<open>res.data\<close> has a truthy \<open>status\<close>, so it
  is neither \<open>undefined\<close> nor \<open>null\<close> and the read cannot throw. The log line that
  prints the new token comes after the two assignments, inside the \<open>try\<close> block: when the
  token cannot be printed, the \<open>catch\<close> block logs and false is returned, the fields
  assigned. After \<open>isLogin\<close> answered true the token prints, so the log line there
  cannot throw.
\<close>

definition login :: "provider \<Rightarrow> digimovie \<Rightarrow> bool \<times> digimovie" where
  "login net this =
     (if \<not> truthy (username this) \<or> \<not> truthy (password this) then (False, this)
      else case isLogin net this of
        (True, this1) \<Rightarrow> (True, this1)
      | (False, this1) \<Rightarrow>
          (case axios_request net (Login (username this1) (password this1)) this1 of
             (Resolved d, this2) \<Rightarrow>
               if truthy (opt_prop d ''status'')
               then (printable (opt_prop d ''auth_token''),
                     this2\<lparr>token := opt_prop d ''auth_token'',
                            refreshToken := opt_prop d ''refresh_token''\<rparr>)
               else (False, this2)
           | (Rejected e, this2) \<Rightarrow> (False, this2)))"

text \<open>
  \<open>getMovieData\<close> calls itself after a successful re-login. The first argument bounds the
  number of nested calls: \<open>None\<close> means that the bound was reached before the method
  returned. A returned \<open>null\<close> is \<open>JNull\<close>. The first statement of the \<open>try\<close> block
  prints the movie id: when the id cannot be printed, the error is caught, it has no
  \<open>response\<close>, and \<open>null\<close> is returned before any request.
\<close>

fun getMovieData ::
  "nat \<Rightarrow> provider \<Rightarrow> string \<Rightarrow> jsval \<Rightarrow> digimovie \<Rightarrow> (jsval \<times> digimovie) option" where
  "getMovieData 0 net type movie_id this = None"
| "getMovieData (Suc fuel) net type movie_id this =
     (if \<not> printable movie_id then Some (JNull, this)
      else case axios_request net (GetMovieDetail movie_id (token this)) this of
        (Resolved d, this1) \<Rightarrow>
          if truthy (opt_prop d ''status'') then Some (d, this1) else Some (JNull, this1)
      | (Rejected e, this1) \<Rightarrow>
          if e = Some 401 \<or> e = Some 403
          then (case login net this1 of
                  (True, this2) \<Rightarrow> getMovieData fuel net type movie_id this2
                | (False, this2) \<Rightarrow> Some (JNull, this2))
          else Some (JNull, this1))"

text \<open>
  Two providers. The first accepts every probe and every login and rejects every detail
  request with 401. The second does the same for the first \<open>k\<close> detail requests and then
  answers the detail.
\<close>

definition accepted :: jsval where
  "accepted = JObj [(''status'', JBool True), (''auth_token'', JStr ''tok''),
                    (''refresh_token'', JStr ''ref'')]"

fun is_detail :: "request \<Rightarrow> bool" where
  "is_detail (GetMovieDetail i t) = True"
| "is_detail r = False"

definition rejecting_provider :: provider where
  "rejecting_provider history r = (if is_detail r then Rejected (Some 401) else Resolved accepted)"

definition rejecting_first :: "nat \<Rightarrow> provider" where
  "rejecting_first k history r =
     (if is_detail r \<and> length (filter is_detail history) < k then Rejected (Some 401)
      else Resolved accepted)"

definition logged_in :: digimovie where
  "logged_in = \<lparr>username = JStr ''user'', password = JStr ''pass'', token = JStr ''tok'',
                 refreshToken = JStr ''ref'', requests = []\<rparr>"

section \<open>Link extraction\<close>

text \<open>
  A thrown error is the left summand of a result; \<open>bind_js\<close> runs the rest of a block
  when the step before it did not throw.
\<close>

definition bind_js :: "js_error + 'a \<Rightarrow> ('a \<Rightarrow> js_error + 'b) \<Rightarrow> js_error + 'b" where
  "bind_js m f = (case m of Inl e \<Rightarrow> Inl e | Inr x \<Rightarrow> f x)"

record link =
  url :: jsval
  title :: string

text \<open>
  \<open>for (const item of v)\<close>: an array gives its elements, a string its characters, and
  any other value is not iterable.
\<close>

fun iterate :: "jsval \<Rightarrow> js_error + jsval list" where
  "iterate (JArr xs) = Inr xs"
| "iterate (JStr s) = Inr (map (\<lambda>c. JStr [c]) s)"
| "iterate v = Inl TypeError"

text \<open>
  The body of the loop of \<open>getMovieLinks\<close>, for one entry. Each \<open>+\<close> has a string on
  one side, so it converts the other side to a string and concatenates.
\<close>

definition movie_link :: "jsval \<Rightarrow> js_error + link" where
  "movie_link item =
     bind_js (get_prop item ''quality'') (\<lambda>quality.
     bind_js (to_string_js quality) (\<lambda>quality_text.
     bind_js (get_prop item ''size'') (\<lambda>size.
     bind_js (to_string_js size) (\<lambda>size_text.
     bind_js (get_prop item ''encode'') (\<lambda>encode.
     bind_js (to_string_js encode) (\<lambda>encode_text.
     bind_js (get_prop item ''label'') (\<lambda>label.
     bind_js (to_string_js label) (\<lambda>label_text.
     bind_js (get_prop item ''file'') (\<lambda>file.
       Inr \<lparr>url = file,
            title = (((quality_text @ '' - '') @ (size_text @ '' - ''))
                      @ (encode_text @ '' - '')) @ label_text\<rparr>)))))))))"

fun movie_loop :: "jsval list \<Rightarrow> link list \<Rightarrow> js_error + link list" where
  "movie_loop [] links = Inr links"
| "movie_loop (item # items) links =
     (case movie_link item of
        Inl e \<Rightarrow> Inl e
      | Inr l \<Rightarrow> movie_loop items (links @ [l]))"

definition getMovieLinks :: "jsval \<Rightarrow> js_error + link list" where
  "getMovieLinks movieData =
     (if \<not> truthy movieData then Inr []
      else bind_js (get_prop movieData ''movie_download_urls'') (\<lambda>urls.
        if \<not> truthy urls then Inr []
        else bind_js (iterate urls) (\<lambda>items. movie_loop items [])))"

text \<open>\<open>s.split(":")\<close>.\<close>

fun split_on :: "char \<Rightarrow> string \<Rightarrow> string list" where
  "split_on sep [] = [[]]"
| "split_on sep (c # cs) =
     (if c = sep then [] # split_on sep cs
      else case split_on sep cs of
        [] \<Rightarrow> [[c]]
      | p # ps \<Rightarrow> (c # p) # ps)"

text \<open>
  \<open>parseInt(s)\<close> without a radix: leading white space is skipped, a sign is read, the
  prefix \<open>0x\<close> or \<open>0X\<close> selects base 16, and the longest run of digits is the value;
  without a digit the result is \<open>NaN\<close>, which is \<open>None\<close> here. The value is the exact
  integer (JavaScript rounds it to a double beyond 2 to the power 53).
\<close>

definition digit_value :: "nat \<Rightarrow> char \<Rightarrow> nat option" where
  "digit_value radix c =
     (let n = (of_char c :: nat);
          v = (if 48 \<le> n \<and> n \<le> 57 then Some (n - 48)
               else if 97 \<le> n \<and> n \<le> 122 then Some (n - 87)
               else if 65 \<le> n \<and> n \<le> 90 then Some (n - 55)
               else None)
      in case v of None \<Rightarrow> None | Some d \<Rightarrow> if d < radix then Some d else None)"

definition digits_value :: "nat \<Rightarrow> string \<Rightarrow> nat" where
  "digits_value radix ds = foldl (\<lambda>acc c. acc * radix + the (digit_value radix c)) 0 ds"

definition parseInt :: "string \<Rightarrow> int option" where
  "parseInt str =
     (let s = dropWhile is_ws str;
          negative = (s \<noteq> [] \<and> hd s = CHR ''-'');
          s1 = (if s \<noteq> [] \<and> (hd s = CHR ''+'' \<or> hd s = CHR ''-'') then tl s else s);
          hex = (startsWith s1 ''0x'' \<or> startsWith s1 ''0X'');
          radix = (if hex then 16 else 10);
          s2 = (if hex then drop 2 s1 else s1);
          z = takeWhile (\<lambda>c. digit_value radix c \<noteq> None) s2
      in if z = [] then None
         else Some (if negative then - int (digits_value radix z) else int (digits_value radix z)))"

text \<open>
  A number in a template literal or as a property name; \<open>None\<close> is \<open>NaN\<close>. (JavaScript
  prints an integer of 22 digits or more with an exponent.)
\<close>

definition number_to_string :: "int option \<Rightarrow> string" where
  "number_to_string n = (case n of None \<Rightarrow> ''NaN'' | Some i \<Rightarrow> int_to_string i)"

text \<open>\<open>v[n]\<close> for a number \<open>n\<close>.\<close>

fun get_index :: "jsval \<Rightarrow> int option \<Rightarrow> js_error + jsval" where
  "get_index JUndefined n = Inl TypeError"
| "get_index JNull n = Inl TypeError"
| "get_index (JArr xs) n =
     Inr (case n of
            None \<Rightarrow> JUndefined
          | Some i \<Rightarrow> if 0 \<le> i \<and> i < int (length xs) then xs ! nat i else JUndefined)"
| "get_index (JStr s) n =
     Inr (case n of
            None \<Rightarrow> JUndefined
          | Some i \<Rightarrow> if 0 \<le> i \<and> i < int (length s) then JStr [s ! nat i] else JUndefined)"
| "get_index (JObj kvs) n = get_prop (JObj kvs) (number_to_string n)"
| "get_index v n = Inr JUndefined"

text \<open>\<open>s.replace(" ", "")\<close>: the first space is removed.\<close>

fun remove_first_space :: "string \<Rightarrow> string" where
  "remove_first_space [] = []"
| "remove_first_space (c # cs) = (if c = CHR '' '' then cs else c # remove_first_space cs)"

text \<open>
  The callback of the \<open>filter\<close> in \<open>getSeriesLinks\<close>: only a string has a \<open>replace\<close>
  method.
\<close>

definition season_matches :: "string \<Rightarrow> jsval \<Rightarrow> js_error + bool" where
  "season_matches seasonTitle i =
     bind_js (get_prop i ''season_name'') (\<lambda>season_name.
       case season_name of
         JStr s \<Rightarrow> Inr (includes_str (remove_first_space s) seasonTitle)
       | _ \<Rightarrow> Inl TypeError)"

text \<open>\<open>v.filter(f)\<close>: only an array has a \<open>filter\<close> method.\<close>

fun filter_list :: "(jsval \<Rightarrow> js_error + bool) \<Rightarrow> jsval list \<Rightarrow> js_error + jsval list" where
  "filter_list f [] = Inr []"
| "filter_list f (x # xs) =
     bind_js (f x) (\<lambda>keep.
     bind_js (filter_list f xs) (\<lambda>rest. Inr (if keep then x # rest else rest)))"

fun filter_js :: "(jsval \<Rightarrow> js_error + bool) \<Rightarrow> jsval \<Rightarrow> js_error + jsval list" where
  "filter_js f (JArr xs) = filter_list f xs"
| "filter_js f v = Inl TypeError"

text \<open>
  The body of the loop of \<open>getSeriesLinks\<close>, for one bucket: the link it pushes, if any.
\<close>

definition series_link :: "int option \<Rightarrow> jsval \<Rightarrow> js_error + link option" where
  "series_link episode item =
     bind_js (get_prop item ''quality'') (\<lambda>quality.
     bind_js (to_string_js quality) (\<lambda>quality_text.
     bind_js (get_prop item ''size'') (\<lambda>size.
     bind_js (to_string_js size) (\<lambda>size_text.
     bind_js (get_prop item ''links'') (\<lambda>links.
       if \<not> truthy links then Inr None
       else bind_js (get_index links (map_option (\<lambda>e. e - 1) episode)) (\<lambda>entry.
         if \<not> truthy entry then Inr None
         else bind_js (get_prop entry ''movie'') (\<lambda>movie.
           Inr (Some \<lparr>url = movie,
                      title = (quality_text @ '' - '') @ size_text\<rparr>))))))))"

text \<open>
  The loop, with the array \<open>links\<close> as it stands when the loop ends or throws, and the
  error thrown, if any.
\<close>

fun series_loop :: "int option \<Rightarrow> jsval list \<Rightarrow> link list \<Rightarrow> link list \<times> js_error option" where
  "series_loop episode [] links = (links, None)"
| "series_loop episode (item # items) links =
     (case series_link episode item of
        Inl e \<Rightarrow> (links, Some e)
      | Inr None \<Rightarrow> series_loop episode items links
      | Inr (Some l) \<Rightarrow> series_loop episode items (links @ [l]))"

text \<open>The season and the episode that \<open>getSeriesLinks\<close> reads from the identifier.\<close>

definition season_episode :: "string \<Rightarrow> int option \<times> int option" where
  "season_episode imdbId =
     (let parts = split_on CHR '':'' imdbId
      in if length parts \<ge> 3 then (parseInt (parts ! 1), parseInt (parts ! 2))
         else (Some 1, Some 1))"

text \<open>
  The \<open>try\<close> block of \<open>getSeriesLinks\<close>: the array \<open>links\<close> when the block is left, and
  the error that left it, if one was thrown.
\<close>

definition series_try :: "jsval \<Rightarrow> string \<Rightarrow> link list \<times> js_error option" where
  "series_try movieData imdbId =
     (let (season, episode) = season_episode imdbId;
          seasonTitle = '':'' @ number_to_string season
      in if \<not> truthy movieData then ([], None)
         else case get_prop movieData ''serie_download_urls'' of
           Inl e \<Rightarrow> ([], Some e)
         | Inr buckets \<Rightarrow>
             if \<not> truthy buckets then ([], None)
             else case filter_js (season_matches seasonTitle) buckets of
               Inl e \<Rightarrow> ([], Some e)
             | Inr items \<Rightarrow> series_loop episode items [])"

text \<open>
  The \<open>catch\<close> block prints the payload and the identifier in a log line, and \<open>links\<close>
  is returned after it; a payload that cannot be printed makes the \<open>catch\<close> block itself
  throw.
\<close>

definition getSeriesLinks :: "jsval \<Rightarrow> string \<Rightarrow> js_error + link list" where
  "getSeriesLinks movieData imdbId =
     (case series_try movieData imdbId of
        (links, None) \<Rightarrow> Inr links
      | (links, Some e) \<Rightarrow> if printable movieData then Inr links else Inl TypeError)"

definition getLinks :: "string \<Rightarrow> string \<Rightarrow> jsval \<Rightarrow> js_error + link list" where
  "getLinks type imdbId movieData =
     (if type = ''movie'' then getMovieLinks movieData
      else if type = ''series'' then getSeriesLinks movieData imdbId
      else Inr [])"

text \<open>Payloads for the examples.\<close>

definition episodes :: "string list \<Rightarrow> jsval" where
  "episodes urls = JArr (map (\<lambda>u. JObj [(''movie'', JStr u)]) urls)"

definition bucket :: "string \<Rightarrow> string \<Rightarrow> string \<Rightarrow> string list \<Rightarrow> jsval" where
  "bucket season_name quality sz urls =
     JObj [(''season_name'', JStr season_name), (''quality'', JStr quality),
           (''size'', JStr sz), (''links'', episodes urls)]"

definition series_detail :: "jsval list \<Rightarrow> jsval" where
  "series_detail buckets = JObj [(''status'', JBool True), (''serie_download_urls'', JArr buckets)]"

definition movie_detail :: "jsval list \<Rightarrow> jsval" where
  "movie_detail entries = JObj [(''status'', JBool True), (''movie_download_urls'', JArr entries)]"

text \<open>
  The link of a download entry in the specification's words: the four fields joined
  with \<open>" - "\<close>, and the entry's file reference as it is.
\<close>

definition title_fields :: "string list" where
  "title_fields = [''quality'', ''size'', ''encode'', ''label'']"

definition entry_link :: "jsval \<Rightarrow> link" where
  "entry_link entry =
     \<lparr>url = opt_prop entry ''file'',
      title = join_str '' - '' (map (\<lambda>field. to_string (opt_prop entry field)) title_fields)\<rparr>"







section \<open>Properties of the string operations\<close>

lemma is_ws_space: "is_ws CHR '' ''"
  by (simp add: is_ws_def)

lemma to_lower_idem: "to_lower (to_lower c) = to_lower c"
proof -
  have b: "(of_char c :: nat) < 256" by simp
  show ?thesis unfolding to_lower_def Let_def using b
    by auto
qed

lemma set_replace_chars: "set (replace_chars P rep s) \<subseteq> {c \<in> set s. \<not> P c} \<union> set rep"
  by (induction s) auto

lemma set_strip_leading: "set (strip_leading w s) \<subseteq> set s"
  unfolding strip_leading_def Let_def
  by (auto dest!: set_dropWhileD in_set_dropD)

lemma set_replace_ws_runs: "set (replace_ws_runs s) \<subseteq> {c \<in> set s. \<not> is_ws c} \<union> {CHR '' ''}"
  by (induction s rule: replace_ws_runs.induct) (auto dest: set_dropWhileD)

lemma set_trimEnd: "set (trimEnd s) \<subseteq> set s"
  by (induction s) (auto simp: Let_def)

lemma set_trim: "set (trim s) \<subseteq> set s"
  unfolding trim_def using set_trimEnd by (auto dest!: set_dropWhileD)

lemma replace_ws_runs_Nil: "(replace_ws_runs t = []) = (t = [])"
  by (cases t) auto

lemma hd_replace_ws_runs: "t \<noteq> [] \<Longrightarrow> is_ws (hd (replace_ws_runs t)) = is_ws (hd t)"
  by (cases t) (auto simp: is_ws_space)

lemma ws_ok_replace_ws_runs: "ws_ok (replace_ws_runs s)"
proof (induction s rule: replace_ws_runs.induct)
  case 1
  show ?case by simp
next
  case (2 c cs)
  show ?case
  proof (cases "is_ws c")
    case True
    define d where "d = dropWhile is_ws cs"
    have "d = [] \<or> \<not> is_ws (hd d)"
      unfolding d_def using hd_dropWhile [of is_ws cs] by blast
    then have "replace_ws_runs d = [] \<or> \<not> is_ws (hd (replace_ws_runs d))"
      using replace_ws_runs_Nil [of d] hd_replace_ws_runs [of d] by blast
    moreover have "ws_ok (replace_ws_runs d)"
      unfolding d_def using 2(1) True by simp
    ultimately show ?thesis using True by (simp add: d_def)
  next
    case False
    with 2 show ?thesis by simp
  qed
qed

lemma ws_ok_dropWhile: "ws_ok s \<Longrightarrow> ws_ok (dropWhile P s)"
  by (induction s) auto

lemma hd_trimEnd: "trimEnd s \<noteq> [] \<Longrightarrow> hd (trimEnd s) = hd s"
  by (cases s) (auto simp: Let_def split: if_splits)

lemma ws_ok_trimEnd: "ws_ok s \<Longrightarrow> ws_ok (trimEnd s)"
  by (induction s) (auto simp: Let_def hd_trimEnd)

lemma ws_ok_fix: "ws_ok s \<Longrightarrow> replace_ws_runs s = s"
proof (induction s rule: replace_ws_runs.induct)
  case 1
  show ?case by simp
next
  case (2 c cs)
  show ?case
  proof (cases "is_ws c")
    case True
    with 2(3) have c: "c = CHR '' ''" and h: "cs = [] \<or> \<not> is_ws (hd cs)" and r: "ws_ok cs" by auto
    from h have d: "dropWhile is_ws cs = cs" by (cases cs) auto
    with 2(1) True r have "replace_ws_runs cs = cs" by simp
    with True c d show ?thesis by simp
  next
    case False
    with 2 show ?thesis by simp
  qed
qed

lemma ws_ok_space: "ws_ok s \<Longrightarrow> c \<in> set s \<Longrightarrow> is_ws c \<Longrightarrow> c = CHR '' ''"
  by (induction s) auto

lemma last_trimEnd: "trimEnd s \<noteq> [] \<Longrightarrow> \<not> is_ws (last (trimEnd s))"
  by (induction s) (auto simp: Let_def)

lemma trimEnd_fix: "t = [] \<or> \<not> is_ws (last t) \<Longrightarrow> trimEnd t = t"
  by (induction t) (auto simp: Let_def split: if_splits)

lemma last_dropWhile_eq: "dropWhile P t \<noteq> [] \<Longrightarrow> last (dropWhile P t) = last t"
  by (induction t) (auto split: if_splits)

lemma trim_trim: "trim (trim s) = trim s"
proof -
  define y where "y = dropWhile is_ws (trimEnd s)"
  have "y = [] \<or> \<not> is_ws (last y)"
  proof (cases "y = []")
    case True
    then show ?thesis by simp
  next
    case False
    then have l: "last y = last (trimEnd s)"
      unfolding y_def by (rule last_dropWhile_eq)
    from False have "trimEnd s \<noteq> []" unfolding y_def by auto
    then have "\<not> is_ws (last (trimEnd s))" by (rule last_trimEnd)
    with l show ?thesis by simp
  qed
  then have "trimEnd y = y" by (rule trimEnd_fix)
  then show ?thesis by (simp add: trim_def y_def)
qed

lemma replace_chars_id: "\<forall>c \<in> set s. \<not> P c \<Longrightarrow> replace_chars P rep s = s"
  by (induction s) auto

lemma ci_eq_lowered:
  assumes "ci_eq c l" and "to_lower c = c" and "97 \<le> (of_char l :: nat)" and "(of_char l :: nat) \<le> 122"
  shows "c = l"
proof (rule ccontr)
  assume n: "c \<noteq> l"
  with assms(1) have e: "(of_char c :: nat) + 32 = of_char l" by (simp add: ci_eq_def)
  with assms(3,4) have r: "65 \<le> (of_char c :: nat) \<and> (of_char c :: nat) \<le> 90" by arith
  then have "to_lower c = char_of ((of_char c :: nat) + 32)" by (simp add: to_lower_def Let_def)
  with e have "to_lower c = l" by simp
  with assms(2) n show False by simp
qed

lemma strip_leading_id:
  assumes low: "\<forall>c \<in> set s. to_lower c = c"
    and ws: "ws_ok s"
    and w: "\<forall>l \<in> set w. 97 \<le> (of_char l :: nat) \<and> (of_char l :: nat) \<le> 122"
    and np: "\<not> startsWith s (w @ '' '')"
  shows "strip_leading w s = s"
proof (rule ccontr)
  assume "strip_leading w s \<noteq> s"
  then have len: "length w \<le> length s"
    and ci: "list_all2 ci_eq (take (length w) s) w"
    and ne: "drop (length w) s \<noteq> []"
    and hw: "is_ws (hd (drop (length w) s))"
    unfolding strip_leading_def Let_def by (auto split: if_splits)
  have "take (length w) s = w"
  proof (rule list_all2_eq [THEN iffD2])
    show "list_all2 (=) (take (length w) s) w"
    proof (rule list.rel_mono_strong [OF ci])
      fix c l
      assume "c \<in> set (take (length w) s)" and "l \<in> set w" and "ci_eq c l"
      then show "c = l"
        using low w ci_eq_lowered [of c l] by (auto dest: in_set_takeD)
    qed
  qed
  moreover from ne have "hd (drop (length w) s) \<in> set s"
    by (metis hd_in_set in_set_dropD)
  with ws hw have "hd (drop (length w) s) = CHR '' ''" using ws_ok_space by blast
  with ne have "take 1 (drop (length w) s) = '' ''"
    by (cases "drop (length w) s") auto
  ultimately have "take (length w + 1) s = w @ '' ''"
    by (metis take_add)
  with len ne have "startsWith s (w @ '' '')"
    by (simp add: startsWith_def)
  with np show False by simp
qed

lemma normalizeTitle_shape:
  "ws_ok (normalizeTitle x) \<and> trim (normalizeTitle x) = normalizeTitle x
   \<and> (\<forall>c \<in> set (normalizeTitle x). to_lower c = c \<and> c \<noteq> CHR ''&'' \<and> \<not> is_punct c)"
proof (cases "x = []")
  case True
  then show ?thesis by (simp add: normalizeTitle_def trim_def)
next
  case False
  define a where "a = replace_chars (\<lambda>c. c = CHR ''&'') ''and'' (toLowerCase x)"
  define b where "b = strip_leading ''an'' (strip_leading ''a'' (strip_leading ''the'' a))"
  define p where "p = replace_chars is_punct '' '' b"
  define r where "r = replace_ws_runs p"
  have y: "normalizeTitle x = trim r"
    using False by (simp add: normalizeTitle_def a_def b_def p_def r_def)
  let ?ok = "\<lambda>c. to_lower c = c \<and> c \<noteq> CHR ''&''"
  have la: "\<forall>c \<in> set a. ?ok c"
  proof
    fix c assume "c \<in> set a"
    then have "(c \<in> set (toLowerCase x) \<and> c \<noteq> CHR ''&'') \<or> c \<in> set ''and''"
      unfolding a_def using set_replace_chars [of "\<lambda>c. c = CHR ''&''" "''and''" "toLowerCase x"] by auto
    moreover have "?ok CHR ''a''" "?ok CHR ''n''" "?ok CHR ''d''" by code_simp+
    ultimately show "?ok c"
      by (auto simp: toLowerCase_def to_lower_idem)
  qed
  have "set b \<subseteq> set a"
    unfolding b_def using set_strip_leading by blast
  with la have lb: "\<forall>c \<in> set b. ?ok c" by blast
  have sp: "?ok CHR '' '' \<and> \<not> is_punct CHR '' ''" by code_simp
  have lp: "\<forall>c \<in> set p. ?ok c \<and> \<not> is_punct c"
  proof
    fix c assume "c \<in> set p"
    then have "(c \<in> set b \<and> \<not> is_punct c) \<or> c = CHR '' ''"
      unfolding p_def using set_replace_chars [of is_punct "'' ''" b] by auto
    with lb sp show "?ok c \<and> \<not> is_punct c"
      by blast
  qed
  have lr: "\<forall>c \<in> set r. ?ok c \<and> \<not> is_punct c"
  proof
    fix c assume "c \<in> set r"
    then have "c \<in> set p \<or> c = CHR '' ''"
      unfolding r_def using set_replace_ws_runs [of p] by auto
    with lp sp show "?ok c \<and> \<not> is_punct c"
      by blast
  qed
  have "ws_ok r" unfolding r_def by (rule ws_ok_replace_ws_runs)
  then have "ws_ok (trim r)"
    unfolding trim_def by (intro ws_ok_dropWhile ws_ok_trimEnd)
  moreover have "trim (trim r) = trim r" by (rule trim_trim)
  moreover have "\<forall>c \<in> set (trim r). ?ok c \<and> \<not> is_punct c"
    using lr set_trim [of r] by blast
  ultimately show ?thesis unfolding y by blast
qed

lemma startsWith_prefix: "startsWith s t = prefix t s"
  unfolding startsWith_def prefix_def
  by (metis append_eq_conv_conj append_take_drop_id)

lemma includes_str_sublist: "includes_str s t = sublist t s"
  by (induction s) (auto simp: startsWith_prefix sublist_Cons_right)

lemma replace_chars_ampersand: "replace_chars (\<lambda>c. c = CHR ''&'') ''and'' s = ampersand_to_and s"
  by (induction s) (auto simp: ampersand_to_and_def)

lemma replace_chars_punct: "replace_chars is_punct '' '' s = punctuation_to_space s"
  by (induction s) (auto simp: punctuation_to_space_def is_punct_def)

lemma replace_ws_runs_collapse: "replace_ws_runs s = collapse_ws s"
proof (induction s rule: collapse_ws.induct)
  case 1
  show ?case by simp
next
  case (2 c)
  show ?case by simp
next
  case (3 a b s)
  then show ?case by auto
qed

lemma trimEnd_rev: "trimEnd s = rev (dropWhile is_ws (rev s))"
  by (induction s) (auto simp: Let_def dropWhile_append)

lemma trim_trim_both: "trim s = trim_both s"
proof -
  have "dropWhile is_ws (rev (dropWhile is_ws (rev s))) = rev (dropWhile is_ws (rev (dropWhile is_ws s)))"
  proof (induction s)
    case Nil
    show ?case by simp
  next
    case (Cons c s)
    then show ?case
      by (auto simp: dropWhile_append dest: set_dropWhileD split: if_splits)
  qed
  then show ?thesis by (simp add: trim_def trim_both_def trimEnd_rev)
qed

lemma after_word_take_drop:
  assumes "\<forall>l \<in> set w. 97 \<le> (of_char l :: nat) \<and> (of_char l :: nat) \<le> 122"
  shows "after_word w s =
    (if length w \<le> length s \<and> list_all2 ci_eq (take (length w) s) w then Some (drop (length w) s) else None)"
  using assms
proof (induction w s rule: after_word.induct)
  case (1 s)
  show ?case by simp
next
  case (2 l w)
  show ?case by simp
next
  case (3 l w c s)
  have "ci_eq c l = (to_lower c = l)"
  proof -
    have b: "97 \<le> (of_char l :: nat) \<and> (of_char l :: nat) \<le> 122" using 3(2) by simp
    have c: "(of_char c :: nat) < 256" by simp
    show ?thesis
    proof
      assume "ci_eq c l"
      then show "to_lower c = l"
        using b by (auto simp: ci_eq_def to_lower_def Let_def)
    next
      assume e: "to_lower c = l"
      show "ci_eq c l"
      proof (cases "(65 \<le> (of_char c :: nat) \<and> (of_char c :: nat) \<le> 90) \<or> (192 \<le> (of_char c :: nat) \<and> (of_char c :: nat) \<le> 222 \<and> (of_char c :: nat) \<noteq> 215)")
        case True
        then have "l = char_of ((of_char c :: nat) + 32)" using e by (simp add: to_lower_def Let_def)
        then have "(of_char l :: nat) = ((of_char c :: nat) + 32) mod 256" by simp
        with True b c have "(of_char l :: nat) = (of_char c :: nat) + 32" by auto
        then show ?thesis by (simp add: ci_eq_def)
      next
        case False
        then have "to_lower c = c" by (auto simp: to_lower_def Let_def)
        with e show ?thesis by (simp add: ci_eq_def)
      qed
    qed
  qed
  with 3 show ?case by auto
qed

lemma strip_leading_article:
  assumes "\<forall>l \<in> set w. 97 \<le> (of_char l :: nat) \<and> (of_char l :: nat) \<le> 122"
  shows "strip_leading w s = strip_article w s"
  unfolding strip_leading_def strip_article_def Let_def after_word_take_drop [OF assms]
  by (cases "drop (length w) s") auto

lemma article_letters:
  "\<forall>l \<in> set ''the''. 97 \<le> (of_char l :: nat) \<and> (of_char l :: nat) \<le> 122"
  "\<forall>l \<in> set ''a''. 97 \<le> (of_char l :: nat) \<and> (of_char l :: nat) \<le> 122"
  "\<forall>l \<in> set ''an''. 97 \<le> (of_char l :: nat) \<and> (of_char l :: nat) \<le> 122"
  by simp_all

section \<open>Title normalisation: the claims\<close>

text \<open>
  C3. \<open>normalize\<close> is not idempotent: each application strips one more leading \<open>the\<close>,
  so \<open>The The Matrix\<close> becomes \<open>the matrix\<close> and then \<open>matrix\<close>.
\<close>

theorem normalizeTitle_not_idempotent:
  "normalizeTitle (normalizeTitle ''The The Matrix'') \<noteq> normalizeTitle ''The The Matrix''"
  by code_simp

text \<open>
  C3, as amended. For every string \<open>x\<close> whose normalised form does not begin with an
  article (\<open>the\<close>, \<open>a\<close> or \<open>an\<close>) followed by a space, normalising a second time changes
  nothing: \<open>normalize(normalize(x)) == normalize(x)\<close>.
\<close>

theorem normalizeTitle_idempotent_without_article:
  assumes the: "\<not> startsWith (normalizeTitle x) ''the ''"
    and a: "\<not> startsWith (normalizeTitle x) ''a ''"
    and an: "\<not> startsWith (normalizeTitle x) ''an ''"
  shows "normalizeTitle (normalizeTitle x) = normalizeTitle x"
proof -
  define y where "y = normalizeTitle x"
  have ws: "ws_ok y" and tr: "trim y = y"
    and ch: "\<forall>c \<in> set y. to_lower c = c \<and> c \<noteq> CHR ''&'' \<and> \<not> is_punct c"
    unfolding y_def using normalizeTitle_shape [of x] by blast+
  from ch have low: "\<forall>c \<in> set y. to_lower c = c" by blast
  from low have 1: "toLowerCase y = y"
    unfolding toLowerCase_def by (simp add: map_idI)
  from ch have 2: "replace_chars (\<lambda>c. c = CHR ''&'') ''and'' y = y"
    by (intro replace_chars_id) blast
  have 3: "strip_leading ''the'' y = y"
    using low ws article_letters(1) the unfolding y_def by (intro strip_leading_id) simp_all
  have 4: "strip_leading ''a'' y = y"
    using low ws article_letters(2) a unfolding y_def by (intro strip_leading_id) simp_all
  have 5: "strip_leading ''an'' y = y"
    using low ws article_letters(3) an unfolding y_def by (intro strip_leading_id) simp_all
  from ch have 6: "replace_chars is_punct '' '' y = y"
    by (intro replace_chars_id) blast
  from ws have 7: "replace_ws_runs y = y" by (rule ws_ok_fix)
  have "normalizeTitle y = y"
    unfolding normalizeTitle_def by (simp add: 1 2 3 4 5 6 7 tr)
  then show ?thesis by (simp add: y_def)
qed

theorem normalizeTitle_idempotent_witness:
  "\<not> startsWith (normalizeTitle ''The Matrix'') ''the ''
   \<and> \<not> startsWith (normalizeTitle ''The Matrix'') ''a ''
   \<and> \<not> startsWith (normalizeTitle ''The Matrix'') ''an ''
   \<and> normalizeTitle (normalizeTitle ''The Matrix'') = normalizeTitle ''The Matrix''"
proof -
  have h1: "\<not> startsWith (normalizeTitle ''The Matrix'') ''the ''" by code_simp
  have h2: "\<not> startsWith (normalizeTitle ''The Matrix'') ''a ''" by code_simp
  have h3: "\<not> startsWith (normalizeTitle ''The Matrix'') ''an ''" by code_simp
  show ?thesis
    using h1 h2 h3 normalizeTitle_idempotent_without_article [OF h1 h2 h3] by blast
qed

text \<open>
  C4. The ampersand is replaced by the bare letters \<open>and\<close>, with no space around them,
  so \<open>A&B\<close> does not become \<open>a and b\<close>.
\<close>

theorem normalizeTitle_ampersand_counterexample:
  "normalizeTitle ''A&B'' \<noteq> ''a and b''"
  by code_simp

text \<open>
  C4, as amended. \<open>normalize\<close> performs, in order: lowercasing; replacing every \<open>&\<close> with
  the letters \<open>and\<close> (no space is added); stripping a leading \<open>the\<close> followed by white
  space, then a leading \<open>a\<close> followed by white space, then a leading \<open>an\<close> followed by
  white space (each at most once, in this order, so up to three articles go); replacing
  each of \<open>:\<close>, \<open>-\<close>, \<open>.\<close> with a space; collapsing white space runs to one space; and
  trimming. In particular \<open>normalize("The Matrix") == normalize("Matrix") == "matrix"\<close>,
  \<open>normalize("A&B") == "aandb"\<close> and \<open>normalize("The A Team") == "team"\<close>.
\<close>

theorem normalizeTitle_steps:
  "normalizeTitle s = normalize_steps s
   \<and> normalizeTitle ''The Matrix'' = ''matrix''
   \<and> normalizeTitle ''Matrix'' = ''matrix''
   \<and> normalizeTitle ''A&B'' = ''aandb''
   \<and> normalizeTitle ''The A Team'' = ''team''"
proof -
  have "normalizeTitle s = normalize_steps s"
  proof (cases "s = []")
    case True
    then show ?thesis
      by (simp add: normalizeTitle_def normalize_steps_def ampersand_to_and_def
          strip_article_def punctuation_to_space_def trim_both_def)
  next
    case False
    then show ?thesis
      unfolding normalizeTitle_def normalize_steps_def
      by (simp add: toLowerCase_def replace_chars_ampersand replace_chars_punct
          replace_ws_runs_collapse trim_trim_both strip_leading_article article_letters)
  qed
  moreover have "normalizeTitle ''The Matrix'' = ''matrix''" by code_simp
  moreover have "normalizeTitle ''Matrix'' = ''matrix''" by code_simp
  moreover have "normalizeTitle ''A&B'' = ''aandb''" by code_simp
  moreover have "normalizeTitle ''The A Team'' = ''team''" by code_simp
  ultimately show ?thesis by blast
qed

section \<open>Candidate scoring: the claim\<close>

text \<open>
  C5. For every candidate with a name and every target (the search title of the handler
  and the requested kind), the score is the sum of the kind component (+100 when the
  candidate's kind is the target kind, else -50) and the name component over the
  normalised names (+60 when equal, else +20 when the candidate's starts with the
  target's, else +10 when it contains it, else 0). For the
  target \<open>Matrix\<close>, a movie: \<open>The Matrix\<close> (movie) scores 160, \<open>Matrix Reloaded\<close> (movie)
  120 and \<open>Matrix\<close> (series) 10.
\<close>

theorem scoreItem_kind_plus_name:
  "scoreItem kind (normalizeTitle target)
      \<lparr>item_name = JStr n, item_poster = p, item_type = k, item_id = i\<rparr>
     = Inr (kind_score k kind + name_score (normalizeTitle n) (normalizeTitle target))
   \<and> scoreItem ''movie'' (normalizeTitle ''Matrix'')
      \<lparr>item_name = JStr ''The Matrix'', item_poster = p, item_type = ''movie'', item_id = i\<rparr>
     = Inr 160
   \<and> scoreItem ''movie'' (normalizeTitle ''Matrix'')
      \<lparr>item_name = JStr ''Matrix Reloaded'', item_poster = p, item_type = ''movie'', item_id = i\<rparr>
     = Inr 120
   \<and> scoreItem ''movie'' (normalizeTitle ''Matrix'')
      \<lparr>item_name = JStr ''Matrix'', item_poster = p, item_type = ''series'', item_id = i\<rparr>
     = Inr 10"
proof -
  have v: "normalizeTitle_val (JStr m) = Inr (normalizeTitle m)" for m
    by (simp add: normalizeTitle_val_def normalizeTitle_def)
  have g: "scoreItem kd t \<lparr>item_name = JStr m, item_poster = p, item_type = k', item_id = i\<rparr>
     = Inr (kind_score k' kd + name_score (normalizeTitle m) t)" for kd t m k'
    by (simp add: scoreItem_def v Let_def kind_score_def name_score_def
        startsWith_prefix includes_str_sublist)
  have m: "normalizeTitle ''Matrix'' = ''matrix''" by code_simp
  have t: "normalizeTitle ''The Matrix'' = ''matrix''" by code_simp
  have r: "normalizeTitle ''Matrix Reloaded'' = ''matrix reloaded''" by code_simp
  have e1: "kind_score ''movie'' ''movie'' + name_score ''matrix'' ''matrix'' = 160" by code_simp
  have e2: "kind_score ''movie'' ''movie'' + name_score ''matrix reloaded'' ''matrix'' = 120" by code_simp
  have e3: "kind_score ''series'' ''movie'' + name_score ''matrix'' ''matrix'' = 10" by code_simp
  show ?thesis
    by (simp only: g m t r e1 e2 e3 simp_thms)
qed

lemma endsWith_iff: "endsWith s t = (\<exists>p. s = p @ t)"
proof
  assume "endsWith s t"
  then have "s = take (length s - length t) s @ t"
    by (metis append_take_drop_id endsWith_def)
  then show "\<exists>p. s = p @ t" ..
next
  assume "\<exists>p. s = p @ t"
  then show "endsWith s t" by (auto simp: endsWith_def)
qed

lemma isAllowed_iff: "isAllowed allowlist host = host_in_allowlist allowlist host"
  by (simp add: isAllowed_def host_in_allowlist_def list_ex_iff endsWith_iff)

section \<open>The forwarding gateway: the claim\<close>

text \<open>
  C2. A request whose target host is neither an allowlist entry nor a dot-suffixed
  subdomain of one is answered 403 with the disallowed-host message and nothing is
  fetched. When the target host is allowed and the fetch answers, the same check is applied
  to the host of the final URL of the redirect chain, and a final host outside the
  allowlist is answered 403 after that one fetch.
\<close>

theorem relay_host_check:
  "(targetUrl \<noteq> [] \<and> hostname targetUrl = Some host \<and> \<not> host_in_allowlist allowlist host
      \<longrightarrow> relay allowlist hostname fetch (Some targetUrl)
          = (send_text 403 ''Access to the specified domain is not allowed'', []))
   \<and> (targetUrl \<noteq> [] \<and> hostname targetUrl = Some host \<and> host_in_allowlist allowlist host
       \<and> fetch targetUrl = Fetched response \<and> responseUrl response = Some finalUrl
       \<and> finalUrl \<noteq> [] \<and> hostname finalUrl = Some finalHost
       \<and> \<not> host_in_allowlist allowlist finalHost
      \<longrightarrow> relay allowlist hostname fetch (Some targetUrl)
          = (send_text 403 ''Access to the redirected domain is not allowed'', [targetUrl]))"
  by (simp add: relay_def isAllowed_iff)

theorem relay_host_check_witness:
  "\<not> host_in_allowlist [''cdn.example''] ''evil.test''
   \<and> host_in_allowlist [''cdn.example''] ''a.cdn.example''
   \<and> relay [''cdn.example'']
        (\<lambda>u. if u = ''https://evil.test/f'' then Some ''evil.test''
              else if u = ''https://a.cdn.example/f'' then Some ''a.cdn.example'' else None)
        (\<lambda>u. Fetched \<lparr>responseUrl = Some ''https://evil.test/f'', up_data = ''xyz'',
                        up_content_type = None\<rparr>)
        (Some ''https://evil.test/f'')
      = (send_text 403 ''Access to the specified domain is not allowed'', [])
   \<and> relay [''cdn.example'']
        (\<lambda>u. if u = ''https://evil.test/f'' then Some ''evil.test''
              else if u = ''https://a.cdn.example/f'' then Some ''a.cdn.example'' else None)
        (\<lambda>u. Fetched \<lparr>responseUrl = Some ''https://evil.test/f'', up_data = ''xyz'',
                        up_content_type = None\<rparr>)
        (Some ''https://a.cdn.example/f'')
      = (send_text 403 ''Access to the redirected domain is not allowed'',
         [''https://a.cdn.example/f''])"
proof -
  let ?hostname = "\<lambda>u. if u = ''https://evil.test/f'' then Some ''evil.test''
              else if u = ''https://a.cdn.example/f'' then Some ''a.cdn.example'' else None"
  let ?up = "\<lparr>responseUrl = Some ''https://evil.test/f'', up_data = ''xyz'',
                        up_content_type = None\<rparr>"
  let ?fetch = "\<lambda>u :: string. Fetched ?up"
  have bad: "\<not> host_in_allowlist [''cdn.example''] ''evil.test''"
    unfolding isAllowed_iff [symmetric] by code_simp
  have good: "host_in_allowlist [''cdn.example''] ''a.cdn.example''"
    unfolding isAllowed_iff [symmetric] by code_simp
  have 1: "relay [''cdn.example''] ?hostname ?fetch (Some ''https://evil.test/f'')
      = (send_text 403 ''Access to the specified domain is not allowed'', [])"
    using bad relay_host_check
      [of "''https://evil.test/f''" ?hostname "''evil.test''" "[''cdn.example'']" ?fetch]
    by simp
  have 2: "relay [''cdn.example''] ?hostname ?fetch (Some ''https://a.cdn.example/f'')
      = (send_text 403 ''Access to the redirected domain is not allowed'',
         [''https://a.cdn.example/f''])"
    using bad good relay_host_check
      [of "''https://a.cdn.example/f''" ?hostname "''a.cdn.example''" "[''cdn.example'']" ?fetch
          ?up "''https://evil.test/f''" "''evil.test''"]
    by simp
  from bad good 1 2 show ?thesis by blast
qed

section \<open>The provider session: the claims\<close>

lemma login_rejecting_provider:
  assumes "truthy (username this)" "truthy (password this)" "truthy (token this)"
    "printable (token this)"
  shows "login rejecting_provider this = (True, this\<lparr>requests := requests this @ [GetProfile (token this)]\<rparr>)"
  using assms
  by (simp add: login_def isLogin_def axios_request_def rejecting_provider_def accepted_def opt_prop_def)

lemma getMovieData_rejecting_provider:
  "truthy (username this) \<Longrightarrow> truthy (password this) \<Longrightarrow> truthy (token this)
   \<Longrightarrow> printable (token this) \<Longrightarrow> printable movie_id
   \<Longrightarrow> getMovieData n rejecting_provider type movie_id this = None"
proof (induction n arbitrary: this)
  case 0
  show ?case by simp
next
  case (Suc n)
  let ?this1 = "this\<lparr>requests := requests this @ [GetMovieDetail movie_id (token this)]\<rparr>"
  have r: "axios_request rejecting_provider (GetMovieDetail movie_id (token this)) this
      = (Rejected (Some 401), ?this1)"
    by (simp add: axios_request_def rejecting_provider_def)
  have l: "login rejecting_provider ?this1
      = (True, ?this1\<lparr>requests := requests ?this1 @ [GetProfile (token ?this1)]\<rparr>)"
    using Suc.prems by (intro login_rejecting_provider) simp_all
  have "getMovieData n rejecting_provider type movie_id
      (?this1\<lparr>requests := requests ?this1 @ [GetProfile (token ?this1)]\<rparr>) = None"
    using Suc.prems by (intro Suc.IH) simp_all
  then show ?case
    using Suc.prems by (simp add: r l)
qed

text \<open>
  C1. With a provider that keeps the session valid and rejects every detail request with
  401, \<open>getMovieData\<close> re-logs in and calls itself again after every rejection: no bound
  on the nested calls is enough for it to return. With a provider that rejects the first
  two detail requests only, the third detail request is made and its data returned, after
  two re-logins: the second failure was not final.
\<close>

theorem getMovieData_retries_without_bound:
  "getMovieData n rejecting_provider ''movie'' (JNum 7) logged_in = None
   \<and> getMovieData 3 (rejecting_first 2) ''movie'' (JNum 7) logged_in
     = Some (accepted, logged_in\<lparr>requests :=
         [GetMovieDetail (JNum 7) (JStr ''tok''), GetProfile (JStr ''tok''),
          GetMovieDetail (JNum 7) (JStr ''tok''), GetProfile (JStr ''tok''),
          GetMovieDetail (JNum 7) (JStr ''tok'')]\<rparr>)"
proof -
  have "getMovieData n rejecting_provider ''movie'' (JNum 7) logged_in = None"
    by (rule getMovieData_rejecting_provider) (simp_all add: logged_in_def)
  moreover have "getMovieData 3 (rejecting_first 2) ''movie'' (JNum 7) logged_in
     = Some (accepted, logged_in\<lparr>requests :=
         [GetMovieDetail (JNum 7) (JStr ''tok''), GetProfile (JStr ''tok''),
          GetMovieDetail (JNum 7) (JStr ''tok''), GetProfile (JStr ''tok''),
          GetMovieDetail (JNum 7) (JStr ''tok'')]\<rparr>)"
    by code_simp
  ultimately show ?thesis by blast
qed

text \<open>
  C9. When the username or the password is empty or missing (any falsy value), \<open>login\<close>
  returns false and leaves the object as it was; in particular the log of network calls
  is unchanged: no request was made.
\<close>

theorem login_incomplete_credentials:
  assumes "\<not> truthy (username this) \<or> \<not> truthy (password this)"
  shows "login net this = (False, this) \<and> requests (snd (login net this)) = requests this"
  using assms by (simp add: login_def)

theorem login_incomplete_credentials_witness:
  "\<not> truthy (password (logged_in\<lparr>password := JStr ''''\<rparr>))
   \<and> login rejecting_provider (logged_in\<lparr>password := JStr ''''\<rparr>)
      = (False, logged_in\<lparr>password := JStr ''''\<rparr>)
   \<and> requests (snd (login rejecting_provider (logged_in\<lparr>password := JStr ''''\<rparr>))) = []"
proof -
  have h: "\<not> truthy (username (logged_in\<lparr>password := JStr ''''\<rparr>))
      \<or> \<not> truthy (password (logged_in\<lparr>password := JStr ''''\<rparr>))"
    by simp
  show ?thesis
    using h login_incomplete_credentials [OF h, of rejecting_provider]
    by (simp add: logged_in_def)
qed

text \<open>
  C10. When the stored token is empty (or any other falsy value), \<open>isLogin\<close> returns false
  at once and makes no request. In every case, whatever the provider answers, \<open>isLogin\<close>
  leaves \<open>token\<close> and \<open>refreshToken\<close> as they were.
\<close>

theorem isLogin_frame:
  "(\<not> truthy (token this) \<longrightarrow> isLogin net this = (False, this))
   \<and> token (snd (isLogin net this)) = token this
   \<and> refreshToken (snd (isLogin net this)) = refreshToken this"
  by (simp add: isLogin_def axios_request_def split: http_result.split)

theorem isLogin_frame_witness:
  "\<not> truthy (token (logged_in\<lparr>token := JStr ''''\<rparr>))
   \<and> isLogin rejecting_provider (logged_in\<lparr>token := JStr ''''\<rparr>)
      = (False, logged_in\<lparr>token := JStr ''''\<rparr>)
   \<and> requests (snd (isLogin rejecting_provider (logged_in\<lparr>token := JStr ''''\<rparr>))) = []
   \<and> token (snd (isLogin rejecting_provider logged_in)) = JStr ''tok''
   \<and> refreshToken (snd (isLogin rejecting_provider logged_in)) = JStr ''ref''"
proof -
  have h: "\<not> truthy (token (logged_in\<lparr>token := JStr ''''\<rparr>))" by simp
  show ?thesis
    using h isLogin_frame [of "logged_in\<lparr>token := JStr ''''\<rparr>" rejecting_provider]
      isLogin_frame [of logged_in rejecting_provider]
    by (simp add: logged_in_def)
qed

lemma get_prop_defined:
  "v \<noteq> JUndefined \<Longrightarrow> v \<noteq> JNull \<Longrightarrow> get_prop v k = Inr (opt_prop v k)"
  by (cases v) (simp_all add: opt_prop_def)

lemma truthy_defined: "truthy v \<Longrightarrow> v \<noteq> JUndefined \<and> v \<noteq> JNull"
  by (cases v) simp_all

lemma opt_prop_JArr_object: "opt_prop v k = JArr xs \<Longrightarrow> truthy v"
  by (cases v) (simp_all add: opt_prop_def)

lemma movie_link_defined:
  assumes "item \<noteq> JUndefined" and "item \<noteq> JNull"
    and "\<forall>field \<in> set title_fields. printable (opt_prop item field)"
  shows "movie_link item = Inr (entry_link item)"
  using assms(3)
  by (simp add: movie_link_def entry_link_def bind_js_def to_string_js_def title_fields_def
      get_prop_defined [OF assms(1,2)])

lemma movie_loop_defined:
  "\<forall>e \<in> set items. e \<noteq> JUndefined \<and> e \<noteq> JNull
      \<and> (\<forall>field \<in> set title_fields. printable (opt_prop e field))
   \<Longrightarrow> movie_loop items links = Inr (links @ map entry_link items)"
  by (induction items arbitrary: links) (simp_all add: movie_link_defined)

lemma getMovieLinks_array:
  assumes "opt_prop movieData ''movie_download_urls'' = JArr entries"
    and "\<forall>e \<in> set entries. e \<noteq> JUndefined \<and> e \<noteq> JNull
      \<and> (\<forall>field \<in> set title_fields. printable (opt_prop e field))"
  shows "getMovieLinks movieData = Inr (map entry_link entries)"
proof -
  have t: "truthy movieData" using assms(1) by (rule opt_prop_JArr_object)
  then have "get_prop movieData ''movie_download_urls'' = Inr (JArr entries)"
    using assms(1) truthy_defined [OF t] by (simp add: get_prop_defined)
  then show ?thesis
    using t by (simp add: getMovieLinks_def bind_js_def movie_loop_defined [OF assms(2)])
qed


section \<open>Link extraction: the claims\<close>

text \<open>
  C8. For a detail whose download list is an array of entries (none of them \<open>null\<close>,
  and each of the four title fields a value that converts to a string), movie extraction returns one link per entry, in the order of the list; the title is
  the four fields joined with \<open>" - "\<close> (an absent field is printed as \<open>undefined\<close>, the
  extraction does not fail), and the url is the entry's file reference as it is. The single entry
  1080p, 2GB, x265, WEB with file \<open>https://host/f.mkv\<close> gives the title
  \<open>1080p - 2GB - x265 - WEB\<close> and that url; a detail with no download entry gives the
  empty sequence.
\<close>

theorem getMovieLinks_one_link_per_entry:
  assumes "opt_prop movieData ''movie_download_urls'' = JArr entries"
    and "\<forall>e \<in> set entries. e \<noteq> JUndefined \<and> e \<noteq> JNull
      \<and> (\<forall>field \<in> set title_fields. printable (opt_prop e field))"
  shows "getMovieLinks movieData = Inr (map entry_link entries)
    \<and> getMovieLinks (movie_detail
         [JObj [(''quality'', JStr ''1080p''), (''size'', JStr ''2GB''),
                (''encode'', JStr ''x265''), (''label'', JStr ''WEB''),
                (''file'', JStr ''https://host/f.mkv'')]])
       = Inr [\<lparr>url = JStr ''https://host/f.mkv'', title = ''1080p - 2GB - x265 - WEB''\<rparr>]
    \<and> getMovieLinks (movie_detail []) = Inr []
    \<and> getMovieLinks (JObj [(''status'', JBool True)]) = Inr []"
proof -
  have "getMovieLinks movieData = Inr (map entry_link entries)"
    using assms by (rule getMovieLinks_array)
  moreover have "getMovieLinks (movie_detail
         [JObj [(''quality'', JStr ''1080p''), (''size'', JStr ''2GB''),
                (''encode'', JStr ''x265''), (''label'', JStr ''WEB''),
                (''file'', JStr ''https://host/f.mkv'')]])
       = Inr [\<lparr>url = JStr ''https://host/f.mkv'', title = ''1080p - 2GB - x265 - WEB''\<rparr>]"
    by code_simp
  moreover have "getMovieLinks (movie_detail []) = Inr []" by code_simp
  moreover have "getMovieLinks (JObj [(''status'', JBool True)]) = Inr []" by code_simp
  ultimately show ?thesis by blast
qed

theorem getMovieLinks_one_link_per_entry_witness:
  "getMovieLinks (movie_detail
      [JObj [(''quality'', JStr ''720p''), (''size'', JStr ''1GB''), (''file'', JStr ''https://host/a.mkv'')],
       JObj [(''quality'', JStr ''1080p''), (''size'', JStr ''2GB''),
             (''encode'', JStr ''x265''), (''label'', JStr ''WEB''),
             (''file'', JStr ''https://host/f.mkv'')]])
   = Inr [\<lparr>url = JStr ''https://host/a.mkv'', title = ''720p - 1GB - undefined - undefined''\<rparr>,
          \<lparr>url = JStr ''https://host/f.mkv'', title = ''1080p - 2GB - x265 - WEB''\<rparr>]"
proof -
  let ?a = "JObj [(''quality'', JStr ''720p''), (''size'', JStr ''1GB''), (''file'', JStr ''https://host/a.mkv'')]"
  let ?b = "JObj [(''quality'', JStr ''1080p''), (''size'', JStr ''2GB''),
             (''encode'', JStr ''x265''), (''label'', JStr ''WEB''),
             (''file'', JStr ''https://host/f.mkv'')]"
  have h1: "opt_prop (movie_detail [?a, ?b]) ''movie_download_urls'' = JArr [?a, ?b]"
    by (simp add: movie_detail_def opt_prop_def)
  have h2: "\<forall>e \<in> set [?a, ?b]. e \<noteq> JUndefined \<and> e \<noteq> JNull
      \<and> (\<forall>field \<in> set title_fields. printable (opt_prop e field))"
    by (simp add: title_fields_def opt_prop_def)
  have "getMovieLinks (movie_detail [?a, ?b]) = Inr (map entry_link [?a, ?b])"
    using getMovieLinks_one_link_per_entry [OF h1 h2] by blast
  moreover have "map entry_link [?a, ?b]
    = [\<lparr>url = JStr ''https://host/a.mkv'', title = ''720p - 1GB - undefined - undefined''\<rparr>,
       \<lparr>url = JStr ''https://host/f.mkv'', title = ''1080p - 2GB - x265 - WEB''\<rparr>]"
    by code_simp
  ultimately show ?thesis by simp
qed

lemma season_matches_defined:
  "season_matches t i = Inr b \<Longrightarrow> i \<noteq> JUndefined \<and> i \<noteq> JNull"
  by (cases i) (simp_all add: season_matches_def bind_js_def)













text \<open>
  C6. The season filter keeps every bucket whose label, its first space removed, contains
  \<open>:\<close> followed by the season number, so a request for season 1 also keeps the bucket of
  season 12: the identifier \<open>tt000:1:1\<close> yields the first episode of both buckets. The
  identifier \<open>tt000:2:3\<close> against a season-2 bucket of five episodes yields the entry at
  index 2, and \<open>tt000\<close> reads as season 1, episode 1.
\<close>

theorem getSeriesLinks_season_prefix:
  "getSeriesLinks (series_detail [bucket ''Season: 1'' ''720p'' ''1GB'' [''s01e01'', ''s01e02''],
                                  bucket ''Season: 12'' ''1080p'' ''2GB'' [''s12e01'', ''s12e02'']])
      ''tt000:1:1''
     = Inr [\<lparr>url = JStr ''s01e01'', title = ''720p - 1GB''\<rparr>,
            \<lparr>url = JStr ''s12e01'', title = ''1080p - 2GB''\<rparr>]
   \<and> getSeriesLinks (series_detail [bucket ''Season: 1'' ''720p'' ''1GB'' [''s01e01'', ''s01e02''],
                                    bucket ''Season: 2'' ''1080p'' ''2GB''
                                      [''s02e01'', ''s02e02'', ''s02e03'', ''s02e04'', ''s02e05'']])
      ''tt000:2:3''
     = Inr [\<lparr>url = JStr ''s02e03'', title = ''1080p - 2GB''\<rparr>]
   \<and> season_episode ''tt000'' = (Some 1, Some 1)"
  by code_simp

end
